theory Spec2Isabelle
  imports Main "HOL-Library.Word" "HOL-Library.Multiset"
begin

unbundle bit_operations_syntax

section \<open>Data model of routerlist.c\<close>

text \<open>
  The structures come from \<^verbatim>\<open>or.h\<close>. An address is a \<^verbatim>\<open>uint32_t\<close> in host order
  (0 stands for an address that is not known), a port a \<^verbatim>\<open>uint16_t\<close>, a time a
  \<^verbatim>\<open>time_t\<close> read as an integer.
\<close>

type_synonym uint32 = "32 word"
type_synonym uint16 = "16 word"
type_synonym time_t = int

datatype exit_policy_type = EXIT_POLICY_ACCEPT | EXIT_POLICY_REJECT

text \<open>
  One clause of an exit policy, \<^verbatim>\<open>struct exit_policy_t\<close>. The \<^verbatim>\<open>next\<close> pointer of the
  C list is the tail of a HOL list; the field \<^verbatim>\<open>addr\<close> is called \<open>net_addr\<close> here, since a
  router has a field \<^verbatim>\<open>addr\<close> too.
\<close>

record exit_policy_t =
  policy_type :: exit_policy_type
  net_addr :: uint32
  msk :: uint32
  prt_min :: uint16
  prt_max :: uint16

datatype addr_policy_result =
  ADDR_POLICY_ACCEPTED | ADDR_POLICY_REJECTED | ADDR_POLICY_UNKNOWN

section \<open>Exit policies\<close>

text \<open>
  The first half of the loop body of \<^verbatim>\<open>router_compare_addr_to_exit_policy\<close>: the values of
  the locals \<^verbatim>\<open>match\<close> and \<^verbatim>\<open>maybe\<close> for the clause \<open>tmpe\<close>. The function returns as soon
  as \<^verbatim>\<open>match\<close> is set, so \<^verbatim>\<open>match\<close> is 0 on entry to every iteration.
\<close>

definition policy_match_maybe :: "uint32 \<Rightarrow> uint16 \<Rightarrow> exit_policy_t \<Rightarrow> bool \<times> bool" where
  "policy_match_maybe addr port tmpe =
     (if addr = 0 then
        (if prt_min tmpe \<le> port \<and> port \<le> prt_max tmpe then
           (if msk tmpe = 0 then (True, False) else (False, True))
         else if port = 0 then (False, True)
         else (False, False))
      else
        (if addr AND msk tmpe = net_addr tmpe AND msk tmpe then
           (if prt_min tmpe \<le> port \<and> port \<le> prt_max tmpe then (True, False)
            else if port = 0 then (False, True)
            else (False, False))
         else (False, False)))"

text \<open>
  The loop of \<^verbatim>\<open>router_compare_addr_to_exit_policy\<close> with its two flags, and the default
  after the last clause.
\<close>

fun compare_loop ::
  "uint32 \<Rightarrow> uint16 \<Rightarrow> bool \<Rightarrow> bool \<Rightarrow> exit_policy_t list \<Rightarrow> addr_policy_result" where
  "compare_loop addr port maybe_reject maybe_accept [] =
     (if maybe_reject then ADDR_POLICY_UNKNOWN else ADDR_POLICY_ACCEPTED)"
| "compare_loop addr port maybe_reject maybe_accept (tmpe # rest) =
     (let match = fst (policy_match_maybe addr port tmpe);
          maybe = snd (policy_match_maybe addr port tmpe);
          maybe_reject' =
            (if maybe \<and> policy_type tmpe = EXIT_POLICY_REJECT then True else maybe_reject);
          maybe_accept' =
            (if maybe \<and> policy_type tmpe \<noteq> EXIT_POLICY_REJECT then True else maybe_accept)
      in if match then
           (if policy_type tmpe = EXIT_POLICY_ACCEPT then
              (if maybe_reject' then ADDR_POLICY_UNKNOWN else ADDR_POLICY_ACCEPTED)
            else
              (if maybe_accept' then ADDR_POLICY_UNKNOWN else ADDR_POLICY_REJECTED))
         else compare_loop addr port maybe_reject' maybe_accept' rest)"

definition router_compare_addr_to_exit_policy ::
  "uint32 \<Rightarrow> uint16 \<Rightarrow> exit_policy_t list \<Rightarrow> addr_policy_result" where
  "router_compare_addr_to_exit_policy addr port policy = compare_loop addr port False False policy"


section \<open>Routers and the router list\<close>

type_synonym uint8 = "8 word"

text \<open>
  Modelled from the spec: \<^verbatim>\<open>crypto_pk_env_t\<close> and \<^verbatim>\<open>crypto_pk_cmp_keys\<close> live in the
  crypto layer, which is not among the sources (the spec's \<^verbatim>\<open>keysEqual(a,b)\<close>). A key is
  its public component read as a number; the comparison returns 0 exactly when the two
  keys are the same.
\<close>

type_synonym crypto_pk_env_t = nat

definition crypto_pk_cmp_keys :: "crypto_pk_env_t \<Rightarrow> crypto_pk_env_t \<Rightarrow> int" where
  "crypto_pk_cmp_keys a b = (if a < b then - 1 else if a = b then 0 else 1)"

text \<open>
  \<^verbatim>\<open>routerinfo_t\<close>: \<open>address\<close> is the host name, \<open>addr\<close> the resolved address (0 until
  resolved), \<open>dir_port\<close> is 0 for a router that serves no directory.
\<close>

record routerinfo_t =
  address :: string
  nickname :: string
  addr :: uint32
  or_port :: uint16
  dir_port :: uint16
  identity_digest :: "uint8 list"
  onion_pkey :: crypto_pk_env_t
  identity_pkey :: crypto_pk_env_t
  platform :: string
  published_on :: time_t
  exit_policy :: "exit_policy_t list"
  is_running :: bool
  is_trusted_dir :: bool

text \<open>
  \<^verbatim>\<open>routerlist_t\<close>. Its field \<^verbatim>\<open>published_on\<close> is \<open>list_published_on\<close> here, the name
  \<open>published_on\<close> being the router's.
\<close>

record routerlist_t =
  routers :: "routerinfo_t list"
  software_versions :: string
  list_published_on :: time_t
  running_routers_updated_on :: time_t

text \<open>
  A C string is the list of its characters up to the terminating 0, which is not part of
  the list. \<^verbatim>\<open>tolower\<close> and \<^verbatim>\<open>strcasecmp\<close> are those of the C library in the C locale, on
  character codes.
\<close>

definition tolower :: "char \<Rightarrow> nat" where
  "tolower c = (let n = of_char c in if 65 \<le> n \<and> n \<le> 90 then n + 32 else n)"

fun strcasecmp :: "string \<Rightarrow> string \<Rightarrow> int" where
  "strcasecmp [] [] = 0"
| "strcasecmp [] (b # bs) = - int (tolower b)"
| "strcasecmp (a # as) [] = int (tolower a)"
| "strcasecmp (a # as) (b # bs) =
     (if tolower a = tolower b then strcasecmp as bs
      else int (tolower a) - int (tolower b))"

subsection \<open>Adding a router: \<^verbatim>\<open>router_add_to_routerlist\<close>\<close>

text \<open>
  The scan of \<^verbatim>\<open>router_add_to_routerlist\<close> over the routers of the list, from the front.
  The result is the return value (0 when \<open>router\<close> went into the list, - 1 when it was
  dropped) and the routers afterwards.
\<close>

fun router_add_to_routerlist ::
  "routerinfo_t list \<Rightarrow> routerinfo_t \<Rightarrow> int \<times> routerinfo_t list" where
  "router_add_to_routerlist [] router = (0, [router])"
| "router_add_to_routerlist (r # rest) router =
     (if strcasecmp (nickname router) (nickname r) = 0 then
        (if crypto_pk_cmp_keys (identity_pkey router) (identity_pkey r) = 0 then
           (if published_on router > published_on r then
              (let router1 = (if is_trusted_dir r then router\<lparr>is_trusted_dir := True\<rparr> else router);
                   router2 = (if strcasecmp (address r) (address router1) = 0
                              then router1\<lparr>addr := addr r\<rparr> else router1)
               in (0, router2 # rest))
            else
              (let r1 = (if is_trusted_dir router then r\<lparr>is_trusted_dir := True\<rparr> else r);
                   r2 = r1\<lparr>is_running := is_running router\<rparr>
               in (- 1, r2 # rest)))
         else (- 1, r # rest))
      else (case router_add_to_routerlist rest router of (rc, rest') \<Rightarrow> (rc, r # rest')))"


subsection \<open>Smartlists\<close>

text \<open>
  A smartlist of routers holds pointers to the \<^verbatim>\<open>routerinfo_t\<close> objects of the router list.
  A pointer to the router stored at position \<open>i\<close> of \<^verbatim>\<open>routerlist->routers\<close> is the
  number \<open>i\<close>; a number past the end of the list is a pointer to some other object.
\<close>

text \<open>
  The ways in which the functions below end without a result: a \<^verbatim>\<open>tor_assert\<close> that fails
  ends the process, and a copy past the end of a buffer is undefined in C.
\<close>

datatype error = AssertionFailed | BufferOverrun

text \<open>
  Modelled from the spec: the smartlist functions live in \<^verbatim>\<open>util.c\<close>, which is not among
  the sources. \<^verbatim>\<open>smartlist_choose\<close> returns an element chosen at random, or NULL for an
  empty list (\<open>rnd\<close> is the random number drawn); \<^verbatim>\<open>smartlist_subtract\<close> removes from the
  first list every element of the second; \<^verbatim>\<open>smartlist_del\<close> removes the element at a
  position by moving the last element into its place (\<^verbatim>\<open>smartlist_del_keeporder\<close> is the
  function that keeps the order).
\<close>

definition smartlist_choose :: "nat \<Rightarrow> 'a list \<Rightarrow> 'a option" where
  "smartlist_choose rnd sl = (if sl = [] then None else Some (sl ! (rnd mod length sl)))"

definition smartlist_subtract :: "'a list \<Rightarrow> 'a list \<Rightarrow> 'a list" where
  "smartlist_subtract sl1 sl2 = filter (\<lambda>e. e \<notin> set sl2) sl1"

definition smartlist_del :: "'a list \<Rightarrow> nat \<Rightarrow> 'a list" where
  "smartlist_del sl idx = butlast (sl[idx := last sl])"

subsection \<open>Choosing a directory server: \<^verbatim>\<open>router_pick_directory_server_impl\<close>\<close>

text \<open>
  The first loop collects the running trusted directory servers, the second one marks
  every trusted directory server as running and collects it. Both assert that a router
  they collect has a directory port. \<open>i\<close> is the position of the first router of the
  list scanned.
\<close>

fun running_dirservers_loop :: "nat \<Rightarrow> routerinfo_t list \<Rightarrow> error + nat list" where
  "running_dirservers_loop i [] = Inr []"
| "running_dirservers_loop i (router # rest) =
     (if is_running router \<and> is_trusted_dir router then
        (if dir_port router > 0 then
           (case running_dirservers_loop (Suc i) rest of
              Inl e \<Rightarrow> Inl e
            | Inr sl \<Rightarrow> Inr (i # sl))
         else Inl AssertionFailed)
      else running_dirservers_loop (Suc i) rest)"

fun mark_dirservers_loop ::
  "nat \<Rightarrow> routerinfo_t list \<Rightarrow> error + (nat list \<times> routerinfo_t list)" where
  "mark_dirservers_loop i [] = Inr ([], [])"
| "mark_dirservers_loop i (router # rest) =
     (if is_trusted_dir router then
        (if dir_port router > 0 then
           (case mark_dirservers_loop (Suc i) rest of
              Inl e \<Rightarrow> Inl e
            | Inr (sl, rest') \<Rightarrow> Inr (i # sl, router\<lparr>is_running := True\<rparr> # rest'))
         else Inl AssertionFailed)
      else
        (case mark_dirservers_loop (Suc i) rest of
           Inl e \<Rightarrow> Inl e
         | Inr (sl, rest') \<Rightarrow> Inr (sl, router # rest')))"

text \<open>
  The global \<^verbatim>\<open>routerlist\<close> is NULL (\<open>None\<close>) until a list is loaded. The result is the
  router chosen and the global afterwards; \<open>rnd1\<close> and \<open>rnd2\<close> are the random numbers of
  the two calls of \<^verbatim>\<open>smartlist_choose\<close>.
\<close>

definition router_pick_directory_server_impl ::
  "nat \<Rightarrow> nat \<Rightarrow> routerlist_t option \<Rightarrow> error + (nat option \<times> routerlist_t option)" where
  "router_pick_directory_server_impl rnd1 rnd2 routerlist =
     (case routerlist of
        None \<Rightarrow> Inr (None, None)
      | Some rl \<Rightarrow>
          (case running_dirservers_loop 0 (routers rl) of
             Inl e \<Rightarrow> Inl e
           | Inr sl \<Rightarrow>
               (case smartlist_choose rnd1 sl of
                  Some router \<Rightarrow> Inr (Some router, Some rl)
                | None \<Rightarrow>
                    (case mark_dirservers_loop 0 (routers rl) of
                       Inl e \<Rightarrow> Inl e
                     | Inr (sl2, routers') \<Rightarrow>
                         Inr (smartlist_choose rnd2 sl2, Some (rl\<lparr>routers := routers'\<rparr>))))))"

text \<open>
  The invariant that the assertions above check: no trusted directory server has
  directory port 0.
\<close>

definition trusted_dirs_have_dir_port :: "routerinfo_t list \<Rightarrow> bool" where
  "trusted_dirs_have_dir_port rs = (filter (\<lambda>r. is_trusted_dir r \<and> dir_port r = 0) rs = [])"

subsection \<open>Forgetting old routers: \<^verbatim>\<open>routerlist_remove_old_routers\<close>\<close>

text \<open>
  The loop removes the router at \<open>i\<close> with \<^verbatim>\<open>smartlist_del\<close> and steps \<open>i\<close> back, so that the
  router moved into position \<open>i\<close> is looked at next.
\<close>

function remove_old_loop :: "time_t \<Rightarrow> nat \<Rightarrow> routerinfo_t list \<Rightarrow> routerinfo_t list" where
  "remove_old_loop cutoff i rs =
     (if i < length rs then
        (if published_on (rs ! i) < cutoff \<and> dir_port (rs ! i) = 0
         then remove_old_loop cutoff i (smartlist_del rs i)
         else remove_old_loop cutoff (Suc i) rs)
      else rs)"
  by pat_completeness auto
termination
  by (relation "measure (\<lambda>(cutoff, i, rs). length rs - i)") (auto simp: smartlist_del_def)

declare remove_old_loop.simps [simp del]

text \<open>
  \<open>now\<close> is the value of \<^verbatim>\<open>time(NULL)\<close>, \<open>ROUTER_MAX_AGE\<close> the constant of that name in
  \<^verbatim>\<open>or.h\<close>.
\<close>

definition routerlist_remove_old_routers ::
  "time_t \<Rightarrow> time_t \<Rightarrow> routerlist_t option \<Rightarrow> routerlist_t option" where
  "routerlist_remove_old_routers now ROUTER_MAX_AGE routerlist =
     (case routerlist of
        None \<Rightarrow> None
      | Some rl \<Rightarrow>
          (let cutoff = now - ROUTER_MAX_AGE
           in Some (rl\<lparr>routers := remove_old_loop cutoff 0 (routers rl)\<rparr>)))"


subsection \<open>Looking a router up by nickname or digest\<close>

text \<open>
  Modelled from the spec: \<^verbatim>\<open>DIGEST_LEN\<close> and \<^verbatim>\<open>HEX_DIGEST_LEN\<close> are constants of \<^verbatim>\<open>or.h\<close>
  and \<^verbatim>\<open>base16_decode\<close> is a function of \<^verbatim>\<open>util.c\<close>, none of them among the sources. The
  identity digest is a SHA-1 hash of 20 bytes, written as 40 hexadecimal digits.
  \<^verbatim>\<open>base16_decode\<close> fails (\<open>None\<close>, a negative return value in C) on an odd length, on a
  destination that is too short and on a character that is no hexadecimal digit;
  otherwise it returns 0 and has written the bytes (\<open>Some\<close>).
\<close>

definition DIGEST_LEN :: nat where
  "DIGEST_LEN = 20"

definition HEX_DIGEST_LEN :: nat where
  "HEX_DIGEST_LEN = 40"

definition hex_decode_digit :: "char \<Rightarrow> nat option" where
  "hex_decode_digit c =
     (let n = (of_char c :: nat)
      in if 48 \<le> n \<and> n \<le> 57 then Some (n - 48)
         else if 65 \<le> n \<and> n \<le> 70 then Some (n - 55)
         else if 97 \<le> n \<and> n \<le> 102 then Some (n - 87)
         else None)"

fun base16_decode_loop :: "string \<Rightarrow> uint8 list option" where
  "base16_decode_loop [] = Some []"
| "base16_decode_loop [c] = None"
| "base16_decode_loop (c1 # c2 # src) =
     (case hex_decode_digit c1 of
        None \<Rightarrow> None
      | Some v1 \<Rightarrow>
          (case hex_decode_digit c2 of
             None \<Rightarrow> None
           | Some v2 \<Rightarrow>
               (case base16_decode_loop src of
                  None \<Rightarrow> None
                | Some dest \<Rightarrow> Some (of_nat (16 * v1 + v2) # dest))))"

definition base16_decode :: "nat \<Rightarrow> string \<Rightarrow> nat \<Rightarrow> uint8 list option" where
  "base16_decode destlen src srclen =
     (if srclen mod 2 \<noteq> 0 then None
      else if destlen < srclen div 2 then None
      else base16_decode_loop (take srclen src))"

text \<open>
  \<^verbatim>\<open>memcmp\<close> on two byte arrays; the code only asks whether the result is 0, which is
  whether the first \<open>n\<close> bytes agree.
\<close>

definition memcmp :: "uint8 list \<Rightarrow> uint8 list \<Rightarrow> nat \<Rightarrow> int" where
  "memcmp a b n = (if take n a = take n b then 0 else 1)"

text \<open>\<open>first_char_is c s\<close> is the test \<^verbatim>\<open>s[0] == c\<close> for a character \<open>c\<close> other than 0.\<close>

definition first_char_is :: "char \<Rightarrow> string \<Rightarrow> bool" where
  "first_char_is c s = (case s of [] \<Rightarrow> False | x # _ \<Rightarrow> x = c)"

definition router_hex_digest_matches :: "routerinfo_t \<Rightarrow> string \<Rightarrow> bool" where
  "router_hex_digest_matches router hexdigest =
     (let hexdigest' = (if first_char_is (CHR ''$'') hexdigest then tl hexdigest else hexdigest)
      in if length hexdigest' \<noteq> HEX_DIGEST_LEN then False
         else (case base16_decode DIGEST_LEN hexdigest' HEX_DIGEST_LEN of
                 None \<Rightarrow> False
               | Some digest \<Rightarrow> memcmp digest (identity_digest router) DIGEST_LEN = 0))"

definition router_nickname_matches :: "routerinfo_t \<Rightarrow> string \<Rightarrow> bool" where
  "router_nickname_matches router nickname' =
     (if \<not> first_char_is (CHR ''$'') nickname' \<and> strcasecmp (nickname router) nickname' = 0
      then True
      else router_hex_digest_matches router nickname')"

text \<open>
  The loop \<^verbatim>\<open>for (i = 0; i < len; i++) { router = get(i); if (P(router)) return router; }
  return NULL;\<close> that the lookups share: the position of the first router satisfying \<open>P\<close>,
  \<open>i\<close> being the position of the head of the list.
\<close>

fun first_router :: "(routerinfo_t \<Rightarrow> bool) \<Rightarrow> nat \<Rightarrow> routerinfo_t list \<Rightarrow> nat option" where
  "first_router P i [] = None"
| "first_router P i (router # rest) =
     (if P router then Some i else first_router P (Suc i) rest)"

definition router_get_by_digest :: "routerinfo_t list \<Rightarrow> uint8 list \<Rightarrow> nat option" where
  "router_get_by_digest rs digest =
     first_router (\<lambda>router. memcmp (identity_digest router) digest DIGEST_LEN = 0) 0 rs"

definition router_get_by_hexdigest :: "routerlist_t option \<Rightarrow> string \<Rightarrow> nat option" where
  "router_get_by_hexdigest routerlist hexdigest =
     (case routerlist of
        None \<Rightarrow> None
      | Some rl \<Rightarrow>
          (let hexdigest' = (if first_char_is (CHR ''$'') hexdigest then tl hexdigest else hexdigest)
           in if length hexdigest' \<noteq> HEX_DIGEST_LEN then None
              else (case base16_decode DIGEST_LEN hexdigest' HEX_DIGEST_LEN of
                      None \<Rightarrow> None
                    | Some digest \<Rightarrow> router_get_by_digest (routers rl) digest)))"

text \<open>
  \<^verbatim>\<open>router_get_by_nickname\<close>: \<open>maybedigest\<close> is the decoded digest when the name has the
  length of a hexadecimal digest and decodes (the C flag \<^verbatim>\<open>maybedigest\<close> and the buffer
  \<^verbatim>\<open>digest\<close> together).
\<close>

definition router_get_by_nickname :: "routerlist_t option \<Rightarrow> string \<Rightarrow> nat option" where
  "router_get_by_nickname routerlist nickname' =
     (case routerlist of
        None \<Rightarrow> None
      | Some rl \<Rightarrow>
          if first_char_is (CHR ''$'') nickname' then router_get_by_hexdigest routerlist nickname'
          else
            (let maybedigest =
                   (if length nickname' = HEX_DIGEST_LEN
                    then base16_decode DIGEST_LEN nickname' HEX_DIGEST_LEN else None)
             in first_router
                  (\<lambda>router. strcasecmp (nickname router) nickname' = 0 \<or>
                     (case maybedigest of
                        None \<Rightarrow> False
                      | Some digest \<Rightarrow> memcmp digest (identity_digest router) DIGEST_LEN = 0))
                  0 (routers rl)))"


subsection \<open>Choosing a random node: \<^verbatim>\<open>router_choose_random_node\<close>\<close>

text \<open>\<^verbatim>\<open>isspace\<close> in the C locale, and the test of the scanning loops for a separator.\<close>

definition isspace :: "char \<Rightarrow> bool" where
  "isspace c = (let n = (of_char c :: nat) in n = 32 \<or> (9 \<le> n \<and> n \<le> 13))"

definition is_separator :: "char \<Rightarrow> bool" where
  "is_separator c = (isspace c \<or> c = CHR '','')"

text \<open>
  The \<^verbatim>\<open>while (*start)\<close> loop of \<^verbatim>\<open>add_nickname_list_to_smartlist\<close>. The name between
  \<open>start\<close> and \<open>end\<close> is copied into the buffer \<^verbatim>\<open>nick[MAX_NICKNAME_LEN+1]\<close>; a longer name
  overruns the buffer, which is the error \<open>BufferOverrun\<close>. \<open>MAX_NICKNAME_LEN\<close> is a
  constant of \<^verbatim>\<open>or.h\<close>. The function asserts that \<^verbatim>\<open>sl\<close> and \<^verbatim>\<open>list\<close> are not NULL;
  here they are a list and a string. The log messages are left out.
\<close>

function nickname_list_loop ::
  "nat \<Rightarrow> routerlist_t option \<Rightarrow> nat list \<Rightarrow> string \<Rightarrow> error + nat list" where
  "nickname_list_loop MAX_NICKNAME_LEN routerlist sl start =
     (if start = [] then Inr sl
      else
        (let nick = takeWhile (\<lambda>c. \<not> is_separator c) start;
             end' = dropWhile (\<lambda>c. \<not> is_separator c) start
         in if length nick > MAX_NICKNAME_LEN then Inl BufferOverrun
            else
              (let sl' =
                     (case routerlist of
                        None \<Rightarrow> sl
                      | Some rl \<Rightarrow>
                          (case router_get_by_nickname routerlist nick of
                             None \<Rightarrow> sl
                           | Some router \<Rightarrow>
                               if is_running (routers rl ! router) then sl @ [router] else sl))
               in nickname_list_loop MAX_NICKNAME_LEN routerlist sl'
                    (dropWhile is_separator end'))))"
  by pat_completeness auto
termination
proof (relation "measure (\<lambda>(m, rl, sl, start). length start)")
  show "wf (measure (\<lambda>(m, rl, sl, start). length start))"
    by simp
next
  fix MAX_NICKNAME_LEN :: nat and routerlist :: "routerlist_t option" and sl :: "nat list"
    and start :: string and x xa xb
  assume nonempty: "start \<noteq> []" and xa: "xa = dropWhile (\<lambda>c. \<not> is_separator c) start"
  have "length (dropWhile is_separator xa) < length start"
  proof (cases start)
    case Nil
    with nonempty show ?thesis by simp
  next
    case (Cons c cs)
    show ?thesis
    proof (cases "is_separator c")
      case True
      with Cons xa have "dropWhile is_separator xa = dropWhile is_separator cs" by simp
      moreover have "length (dropWhile is_separator cs) \<le> length cs"
        by (rule length_dropWhile_le)
      ultimately show ?thesis using Cons by simp
    next
      case False
      with Cons xa have "xa = dropWhile (\<lambda>c. \<not> is_separator c) cs" by simp
      then have "length xa \<le> length cs" by (simp add: length_dropWhile_le)
      moreover have "length (dropWhile is_separator xa) \<le> length xa"
        by (rule length_dropWhile_le)
      ultimately show ?thesis using Cons by simp
    qed
  qed
  then show "((MAX_NICKNAME_LEN, routerlist, xb, dropWhile is_separator xa),
              MAX_NICKNAME_LEN, routerlist, sl, start)
             \<in> measure (\<lambda>(m, rl, sl, start). length start)"
    by simp
qed

declare nickname_list_loop.simps [simp del]

definition add_nickname_list_to_smartlist ::
  "nat \<Rightarrow> routerlist_t option \<Rightarrow> nat list \<Rightarrow> string \<Rightarrow> error + nat list" where
  "add_nickname_list_to_smartlist MAX_NICKNAME_LEN routerlist sl list' =
     nickname_list_loop MAX_NICKNAME_LEN routerlist sl (dropWhile is_separator list')"

text \<open>
  \<open>ORPort\<close> is \<^verbatim>\<open>options.ORPort\<close>; \<open>connection_get_by_identity_digest\<close> tells whether the
  function of that name (in \<^verbatim>\<open>connection.c\<close>) finds an OR connection for the digest.
\<close>

definition router_add_running_routers_to_smartlist ::
  "uint16 \<Rightarrow> (uint8 list \<Rightarrow> bool) \<Rightarrow> routerlist_t option \<Rightarrow> nat list \<Rightarrow> nat list" where
  "router_add_running_routers_to_smartlist ORPort connection_get_by_identity_digest routerlist sl =
     (case routerlist of
        None \<Rightarrow> sl
      | Some rl \<Rightarrow>
          sl @ filter
                 (\<lambda>i. is_running (routers rl ! i) \<and>
                    (ORPort = 0 \<or> connection_get_by_identity_digest (identity_digest (routers rl ! i))))
                 [0..<length (routers rl)])"

text \<open>
  \<open>excludedsmartlist\<close> may be NULL (\<open>None\<close>). \<open>rnd1\<close> and \<open>rnd2\<close> are the random numbers of
  the two calls of \<^verbatim>\<open>smartlist_choose\<close>.
\<close>

definition router_choose_random_node ::
  "nat \<Rightarrow> uint16 \<Rightarrow> (uint8 list \<Rightarrow> bool) \<Rightarrow> nat \<Rightarrow> nat \<Rightarrow> routerlist_t option \<Rightarrow>
   string \<Rightarrow> string \<Rightarrow> nat list option \<Rightarrow> error + nat option" where
  "router_choose_random_node MAX_NICKNAME_LEN ORPort connection_get_by_identity_digest rnd1 rnd2
     routerlist preferred excluded excludedsmartlist =
     (case add_nickname_list_to_smartlist MAX_NICKNAME_LEN routerlist [] excluded of
        Inl e \<Rightarrow> Inl e
      | Inr excludednodes \<Rightarrow>
          (case add_nickname_list_to_smartlist MAX_NICKNAME_LEN routerlist [] preferred of
             Inl e \<Rightarrow> Inl e
           | Inr sl \<Rightarrow>
               (let sl1 = smartlist_subtract sl excludednodes;
                    sl2 = (case excludedsmartlist of
                             None \<Rightarrow> sl1
                           | Some ex \<Rightarrow> smartlist_subtract sl1 ex)
                in case smartlist_choose rnd1 sl2 of
                     Some choice \<Rightarrow> Inr (Some choice)
                   | None \<Rightarrow>
                       (let sl3 = router_add_running_routers_to_smartlist ORPort
                                    connection_get_by_identity_digest routerlist [];
                            sl4 = smartlist_subtract sl3 excludednodes;
                            sl5 = (case excludedsmartlist of
                                     None \<Rightarrow> sl4
                                   | Some ex \<Rightarrow> smartlist_subtract sl4 ex)
                        in Inr (smartlist_choose rnd2 sl5)))))"

text \<open>
  \<open>running_router routerlist k\<close>: the pointer \<open>k\<close> points to a router of the router list,
  and that router is running.
\<close>

definition running_router :: "routerlist_t option \<Rightarrow> nat \<Rightarrow> bool" where
  "running_router routerlist k =
     (case routerlist of
        None \<Rightarrow> False
      | Some rl \<Rightarrow> k < length (routers rl) \<and> is_running (routers rl ! k))"

subsection \<open>Running routers: \<^verbatim>\<open>routerlist_update_from_runningrouters\<close>\<close>

text \<open>\<^verbatim>\<open>running_routers_t\<close>; its field \<^verbatim>\<open>published_on\<close> is \<open>rr_published_on\<close> here.\<close>

record running_routers_t =
  rr_published_on :: time_t
  running_routers :: "string list"

text \<open>The inner loop over the names, for one router: the first name that matches decides.\<close>

fun update_router_from_names :: "routerinfo_t \<Rightarrow> string list \<Rightarrow> routerinfo_t" where
  "update_router_from_names router [] = router"
| "update_router_from_names router (name # names) =
     (if \<not> first_char_is (CHR ''!'') name then
        (if router_nickname_matches router name then router\<lparr>is_running := True\<rparr>
         else update_router_from_names router names)
      else
        (if router_nickname_matches router name then router\<lparr>is_running := False\<rparr>
         else update_router_from_names router names))"

definition routerlist_update_from_runningrouters ::
  "routerlist_t option \<Rightarrow> running_routers_t \<Rightarrow> routerlist_t option" where
  "routerlist_update_from_runningrouters list' rr =
     (case list' of
        None \<Rightarrow> None
      | Some l \<Rightarrow>
          if list_published_on l \<ge> rr_published_on rr then Some l
          else if running_routers_updated_on l \<ge> rr_published_on rr then Some l
          else Some (l\<lparr>routers := map (\<lambda>router. update_router_from_names router (running_routers rr))
                                     (routers l),
                       running_routers_updated_on := rr_published_on rr\<rparr>))"

subsection \<open>Example data\<close>

text \<open>The policy \<^verbatim>\<open>accept 1.2.3.4/32:80, reject *:*\<close>.\<close>

definition example_policy :: "exit_policy_t list" where
  "example_policy =
     [\<lparr>policy_type = EXIT_POLICY_ACCEPT, net_addr = 0x01020304, msk = 0xFFFFFFFF,
       prt_min = 80, prt_max = 80\<rparr>,
      \<lparr>policy_type = EXIT_POLICY_REJECT, net_addr = 0, msk = 0,
       prt_min = 0, prt_max = 65535\<rparr>]"

text \<open>The clause \<^verbatim>\<open>reject 1.2.3.4/32:80\<close>.\<close>

definition example_reject_clause :: exit_policy_t where
  "example_reject_clause =
     \<lparr>policy_type = EXIT_POLICY_REJECT, net_addr = 0x01020304, msk = 0xFFFFFFFF,
      prt_min = 80, prt_max = 80\<rparr>"

text \<open>A running trusted directory server, and a router list around given routers.\<close>

definition example_dirserver :: routerinfo_t where
  "example_dirserver =
     \<lparr>address = ''moria.example.org'', nickname = ''moria'', addr = 0x12000001,
      or_port = 9001, dir_port = 9031,
      identity_digest = [0xAA, 0xAA, 0xAA, 0xAA, 0xAA, 0xAA, 0xAA, 0xAA, 0xAA, 0xAA,
                         0xAA, 0xAA, 0xAA, 0xAA, 0xAA, 0xAA, 0xAA, 0xAA, 0xAA, 0xAA],
      onion_pkey = 11, identity_pkey = 7, platform = ''Tor'', published_on = 100,
      exit_policy = [], is_running = True, is_trusted_dir = True\<rparr>"

definition example_routerlist :: "routerinfo_t list \<Rightarrow> routerlist_t" where
  "example_routerlist rs =
     \<lparr>routers = rs, software_versions = ''0.0.8'', list_published_on = 50,
      running_routers_updated_on = 60\<rparr>"

text \<open>
  A router whose nickname is 40 hexadecimal digits, the digits of the identity digest of
  \<open>example_dirserver\<close>; its own digest is another one.
\<close>

definition example_hex_name :: string where
  "example_hex_name = ''aaaaaaaaaaaaaaaaaaaaaaaaaaaaaaaaaaaaaaaa''"

definition example_hex_named_router :: routerinfo_t where
  "example_hex_named_router =
     example_dirserver\<lparr>nickname := example_hex_name,
       identity_digest := [0x11, 0x11, 0x11, 0x11, 0x11, 0x11, 0x11, 0x11, 0x11, 0x11,
                           0x11, 0x11, 0x11, 0x11, 0x11, 0x11, 0x11, 0x11, 0x11, 0x11],
       identity_pkey := 8, is_trusted_dir := False\<rparr>"

text \<open>Three routers: \<^verbatim>\<open>moria\<close> and \<^verbatim>\<open>bob\<close> are running, \<^verbatim>\<open>carol\<close> is not.\<close>

definition example_three_routers :: routerlist_t where
  "example_three_routers =
     example_routerlist
       [example_dirserver,
        example_dirserver\<lparr>nickname := ''bob'', identity_pkey := 8, is_trusted_dir := False\<rparr>,
        example_dirserver\<lparr>nickname := ''carol'', identity_pkey := 9, is_trusted_dir := False,
                           is_running := False\<rparr>]"

section \<open>Properties\<close>

subsection \<open>Exit policies\<close>

text \<open>
  C1 (as amended). With an unknown address (\<open>addr = 0\<close>) a clause is a definite match
  exactly when its mask is 0 and the port is within its range. It is a possible match
  exactly when the port is within its range and the mask is not 0, or the port is outside
  its range and is the wildcard 0, whatever the mask. The loop of
  \<^verbatim>\<open>router_compare_addr_to_exit_policy\<close> stops at a definite match with the verdict of
  the clause, downgraded by the flag of the other kind, and goes on past any other clause
  with the flag of the clause's kind set when it is a possible match.
\<close>

theorem unknown_addr_match_and_maybe:
  "fst (policy_match_maybe 0 port tmpe) =
     (msk tmpe = 0 \<and> prt_min tmpe \<le> port \<and> port \<le> prt_max tmpe)
   \<and> snd (policy_match_maybe 0 port tmpe) =
     ((msk tmpe \<noteq> 0 \<and> prt_min tmpe \<le> port \<and> port \<le> prt_max tmpe)
      \<or> (\<not> (prt_min tmpe \<le> port \<and> port \<le> prt_max tmpe) \<and> port = 0))
   \<and> compare_loop 0 port maybe_reject maybe_accept (tmpe # rest) =
     (if fst (policy_match_maybe 0 port tmpe) then
        (if policy_type tmpe = EXIT_POLICY_ACCEPT
         then (if maybe_reject then ADDR_POLICY_UNKNOWN else ADDR_POLICY_ACCEPTED)
         else (if maybe_accept then ADDR_POLICY_UNKNOWN else ADDR_POLICY_REJECTED))
      else compare_loop 0 port
             (maybe_reject \<or>
                (snd (policy_match_maybe 0 port tmpe) \<and> policy_type tmpe = EXIT_POLICY_REJECT))
             (maybe_accept \<or>
                (snd (policy_match_maybe 0 port tmpe) \<and> policy_type tmpe = EXIT_POLICY_ACCEPT))
             rest)"
proof -
  have m: "fst (policy_match_maybe 0 port tmpe) =
     (msk tmpe = 0 \<and> prt_min tmpe \<le> port \<and> port \<le> prt_max tmpe)"
    by (simp add: policy_match_maybe_def)
  have y: "snd (policy_match_maybe 0 port tmpe) =
     ((msk tmpe \<noteq> 0 \<and> prt_min tmpe \<le> port \<and> port \<le> prt_max tmpe)
      \<or> (\<not> (prt_min tmpe \<le> port \<and> port \<le> prt_max tmpe) \<and> port = 0))"
    by (simp add: policy_match_maybe_def)
  have excl: "fst (policy_match_maybe 0 port tmpe) \<Longrightarrow> \<not> snd (policy_match_maybe 0 port tmpe)"
    by (auto simp: policy_match_maybe_def split: if_splits)
  have l: "compare_loop 0 port maybe_reject maybe_accept (tmpe # rest) =
     (if fst (policy_match_maybe 0 port tmpe) then
        (if policy_type tmpe = EXIT_POLICY_ACCEPT
         then (if maybe_reject then ADDR_POLICY_UNKNOWN else ADDR_POLICY_ACCEPTED)
         else (if maybe_accept then ADDR_POLICY_UNKNOWN else ADDR_POLICY_REJECTED))
      else compare_loop 0 port
             (maybe_reject \<or>
                (snd (policy_match_maybe 0 port tmpe) \<and> policy_type tmpe = EXIT_POLICY_REJECT))
             (maybe_accept \<or>
                (snd (policy_match_maybe 0 port tmpe) \<and> policy_type tmpe = EXIT_POLICY_ACCEPT))
             rest)"
  proof (cases "fst (policy_match_maybe 0 port tmpe)")
    case True
    with excl show ?thesis by (simp add: Let_def)
  next
    case False
    then show ?thesis
      by (cases "policy_type tmpe"; cases "snd (policy_match_maybe 0 port tmpe)")
         (simp_all add: Let_def)
  qed
  from m y l show ?thesis by blast
qed

text \<open>
  The claim C1 as the spec words it fails for the clause \<^verbatim>\<open>reject 1.2.3.4/32:80\<close> and the
  wildcard port 0: the mask is not 0 and port 0 is outside the range, so neither of the
  spec's two cases of a possible match applies, yet the clause is a possible match, and
  the policy made of it alone answers "unknown".
\<close>

theorem possible_match_needs_no_zero_mask:
  "snd (policy_match_maybe 0 0 example_reject_clause)
   \<and> \<not> ((msk example_reject_clause \<noteq> 0
          \<and> prt_min example_reject_clause \<le> 0 \<and> 0 \<le> prt_max example_reject_clause)
        \<or> (msk example_reject_clause = 0 \<and> (0 :: uint16) = 0))
   \<and> router_compare_addr_to_exit_policy 0 0 [example_reject_clause] = ADDR_POLICY_UNKNOWN"
  by (simp add: policy_match_maybe_def example_reject_clause_def
        router_compare_addr_to_exit_policy_def)

text \<open>
  C2. The policy \<^verbatim>\<open>accept 1.2.3.4/32:80, reject *:*\<close> accepts 1.2.3.4:80, rejects
  1.2.3.4:81, is undecided on port 80 of an unknown address and rejects port 443 of an
  unknown address.
\<close>

theorem example_policy_verdicts:
  "router_compare_addr_to_exit_policy 0x01020304 80 example_policy = ADDR_POLICY_ACCEPTED
   \<and> router_compare_addr_to_exit_policy 0x01020304 81 example_policy = ADDR_POLICY_REJECTED
   \<and> router_compare_addr_to_exit_policy 0 80 example_policy = ADDR_POLICY_UNKNOWN
   \<and> router_compare_addr_to_exit_policy 0 443 example_policy = ADDR_POLICY_REJECTED"
  by (simp add: router_compare_addr_to_exit_policy_def policy_match_maybe_def example_policy_def)

subsection \<open>Adding a router\<close>

text \<open>
  C3 (as amended). When the scan of \<^verbatim>\<open>router_add_to_routerlist\<close> stops at a router of the
  list (the one at \<open>i\<close>, the first whose nickname is that of the incoming router up to case) that has
  the identity key of the incoming router, and the incoming router is not strictly newer,
  the incoming router is dropped (the result is - 1) and the router of the list is kept
  with every field but two as it was: \<open>is_running\<close> becomes that of the incoming router,
  and \<open>is_trusted_dir\<close> is set when the incoming router has it set. So an older
  descriptor that is not running marks a running router of the list as not running.
\<close>

theorem stale_router_sets_is_running:
  assumes "i < length rs"
    and "strcasecmp (nickname router) (nickname (rs ! i)) = 0"
    and "\<forall>j<i. strcasecmp (nickname router) (nickname (rs ! j)) \<noteq> 0"
    and "crypto_pk_cmp_keys (identity_pkey router) (identity_pkey (rs ! i)) = 0"
    and "\<not> published_on router > published_on (rs ! i)"
  shows "router_add_to_routerlist rs router =
    (- 1, rs[i := (rs ! i)\<lparr>is_trusted_dir := is_trusted_dir router \<or> is_trusted_dir (rs ! i),
                           is_running := is_running router\<rparr>])"
  using assms
proof (induction rs arbitrary: i)
  case Nil
  then show ?case by simp
next
  case (Cons r rest)
  show ?case
  proof (cases i)
    case 0
    with Cons.prems show ?thesis by (cases "is_trusted_dir router") simp_all
  next
    case (Suc k)
    with Cons.prems have nomatch: "strcasecmp (nickname router) (nickname r) \<noteq> 0" by auto
    from Suc Cons.prems have k: "k < length rest" by simp
    have "\<forall>j<k. strcasecmp (nickname router) (nickname (rest ! j)) \<noteq> 0"
      using Cons.prems(3) Suc by auto
    with Cons.IH[of k] k Cons.prems Suc
    have "router_add_to_routerlist rest router =
      (- 1, rest[k := (rest ! k)\<lparr>is_trusted_dir := is_trusted_dir router \<or> is_trusted_dir (rest ! k),
                           is_running := is_running router\<rparr>])" by simp
    with nomatch Suc show ?thesis by simp
  qed
qed

theorem stale_router_sets_is_running_witness:
  "router_add_to_routerlist [example_dirserver]
     (example_dirserver\<lparr>nickname := ''MORIA'', published_on := 40, is_running := False,
                        is_trusted_dir := False\<rparr>)
   = (- 1, [example_dirserver\<lparr>is_running := False\<rparr>])
   \<and> is_running example_dirserver
   \<and> published_on example_dirserver = 100"
proof -
  let ?old = "example_dirserver\<lparr>nickname := ''MORIA'', published_on := 40, is_running := False,
                        is_trusted_dir := False\<rparr>"
  have h1: "(0 :: nat) < length [example_dirserver]" by simp
  have h2: "strcasecmp (nickname ?old) (nickname ([example_dirserver] ! 0)) = 0"
    by (simp add: example_dirserver_def tolower_def)
  have h3: "\<forall>j<(0 :: nat). strcasecmp (nickname ?old) (nickname ([example_dirserver] ! j)) \<noteq> 0"
    by simp
  have h4: "crypto_pk_cmp_keys (identity_pkey ?old) (identity_pkey ([example_dirserver] ! 0)) = 0"
    by (simp add: crypto_pk_cmp_keys_def)
  have h5: "\<not> published_on ?old > published_on ([example_dirserver] ! 0)"
    by (simp add: example_dirserver_def)
  from stale_router_sets_is_running [OF h1 h2 h3 h4 h5]
  show ?thesis by (simp add: example_dirserver_def)
qed

text \<open>
  The claim C3 as the spec words it, for any router of the list with the nickname and the
  identity key of the incoming one, fails on a list that holds a router of the same
  nickname and another key before it: the scan stops there, the incoming router is
  dropped for its key, and the router of its own identity stays running although the
  incoming descriptor says it is not.
\<close>

theorem earlier_nickname_match_hides_router:
  "strcasecmp (nickname (example_dirserver\<lparr>published_on := 40, is_running := False\<rparr>))
     (nickname ([example_dirserver\<lparr>identity_pkey := 8, is_trusted_dir := False\<rparr>,
                 example_dirserver] ! 1)) = 0
   \<and> crypto_pk_cmp_keys
       (identity_pkey (example_dirserver\<lparr>published_on := 40, is_running := False\<rparr>))
       (identity_pkey ([example_dirserver\<lparr>identity_pkey := 8, is_trusted_dir := False\<rparr>,
                        example_dirserver] ! 1)) = 0
   \<and> \<not> published_on (example_dirserver\<lparr>published_on := 40, is_running := False\<rparr>)
        > published_on ([example_dirserver\<lparr>identity_pkey := 8, is_trusted_dir := False\<rparr>,
                         example_dirserver] ! 1)
   \<and> router_add_to_routerlist
       [example_dirserver\<lparr>identity_pkey := 8, is_trusted_dir := False\<rparr>, example_dirserver]
       (example_dirserver\<lparr>published_on := 40, is_running := False\<rparr>)
     = (- 1, [example_dirserver\<lparr>identity_pkey := 8, is_trusted_dir := False\<rparr>,
              example_dirserver])
   \<and> is_running example_dirserver
   \<and> \<not> is_running (example_dirserver\<lparr>published_on := 40, is_running := False\<rparr>)"
  by (simp add: example_dirserver_def tolower_def crypto_pk_cmp_keys_def)



text \<open>
  C5. The invariant "a trusted directory server has a directory port" does not survive
  \<^verbatim>\<open>router_add_to_routerlist\<close>. A newer descriptor of a trusted directory server that
  announces no directory port replaces the old one and inherits \<open>is_trusted_dir\<close>; an
  older descriptor that is trusted makes the router of the list trusted although that one
  has no directory port. Both lists start from routers that satisfy the invariant, and
  in both the assertion of \<^verbatim>\<open>router_pick_directory_server_impl\<close> fails afterwards.
\<close>

theorem add_router_breaks_dir_port_invariant:
  "trusted_dirs_have_dir_port [example_dirserver]
   \<and> trusted_dirs_have_dir_port
       [example_dirserver\<lparr>dir_port := 0, published_on := 200, is_trusted_dir := False\<rparr>]
   \<and> router_add_to_routerlist [example_dirserver]
       (example_dirserver\<lparr>dir_port := 0, published_on := 200, is_trusted_dir := False\<rparr>)
     = (0, [example_dirserver\<lparr>dir_port := 0, published_on := 200\<rparr>])
   \<and> \<not> trusted_dirs_have_dir_port [example_dirserver\<lparr>dir_port := 0, published_on := 200\<rparr>]
   \<and> router_pick_directory_server_impl rnd1 rnd2
       (Some (example_routerlist [example_dirserver\<lparr>dir_port := 0, published_on := 200\<rparr>]))
     = Inl AssertionFailed
   \<and> trusted_dirs_have_dir_port [example_dirserver\<lparr>dir_port := 0, is_trusted_dir := False\<rparr>]
   \<and> trusted_dirs_have_dir_port [example_dirserver\<lparr>published_on := 40\<rparr>]
   \<and> router_add_to_routerlist [example_dirserver\<lparr>dir_port := 0, is_trusted_dir := False\<rparr>]
       (example_dirserver\<lparr>published_on := 40\<rparr>)
     = (- 1, [example_dirserver\<lparr>dir_port := 0\<rparr>])
   \<and> \<not> trusted_dirs_have_dir_port [example_dirserver\<lparr>dir_port := 0\<rparr>]
   \<and> router_pick_directory_server_impl rnd1 rnd2
       (Some (example_routerlist [example_dirserver\<lparr>dir_port := 0\<rparr>]))
     = Inl AssertionFailed"
  by (simp add: trusted_dirs_have_dir_port_def example_dirserver_def tolower_def
        crypto_pk_cmp_keys_def router_pick_directory_server_impl_def example_routerlist_def)

subsection \<open>Forgetting old routers\<close>

lemma take_smartlist_del:
  assumes "i < length rs"
  shows "take i (smartlist_del rs i) = take i rs"
proof -
  from assms have "min i (length rs - 1) = i" by simp
  then show ?thesis by (simp add: smartlist_del_def butlast_conv_take)
qed

lemma mset_drop_smartlist_del:
  assumes "i < length rs"
  shows "mset (drop i (smartlist_del rs i)) = mset (drop (Suc i) rs)"
proof (cases "drop (Suc i) rs = []")
  case True
  with assms have "Suc i = length rs" by simp
  then show ?thesis by (simp add: smartlist_del_def)
next
  case False
  let ?ys = "drop (Suc i) rs"
  from False have last: "last rs = last ?ys" by (simp add: last_drop)
  have "rs[i := last rs] = take i rs @ last ?ys # ?ys"
    using assms last by (simp add: upd_conv_take_nth_drop)
  then have "butlast (rs[i := last rs]) = take i rs @ last ?ys # butlast ?ys"
    using False by (simp add: butlast_append)
  then have "drop i (smartlist_del rs i) = last ?ys # butlast ?ys"
    using assms by (simp add: smartlist_del_def)
  moreover have "mset (last ?ys # butlast ?ys) = mset (butlast ?ys @ [last ?ys])" by simp
  moreover have "butlast ?ys @ [last ?ys] = ?ys" by (rule append_butlast_last_id[OF False])
  ultimately show ?thesis by (simp only:)
qed

text \<open>
  The loop from position \<open>i\<close> on: the routers before \<open>i\<close> stay, and of the routers from
  \<open>i\<close> on those stay that are not both older than the cutoff and without directory port.
\<close>

lemma remove_old_loop_mset:
  "i \<le> length rs \<Longrightarrow>
   mset (remove_old_loop cutoff i rs) =
     mset (take i rs)
     + mset (filter (\<lambda>r. \<not> (published_on r < cutoff \<and> dir_port r = 0)) (drop i rs))"
proof (induction cutoff i rs rule: remove_old_loop.induct)
  case (1 cutoff i rs)
  let ?keep = "\<lambda>r. \<not> (published_on r < cutoff \<and> dir_port r = 0)"
  show ?case
  proof (cases "i < length rs")
    case False
    with "1.prems" show ?thesis by (subst remove_old_loop.simps) simp
  next
    case True
    then have split: "drop i rs = rs ! i # drop (Suc i) rs" by (simp add: Cons_nth_drop_Suc)
    show ?thesis
    proof (cases "published_on (rs ! i) < cutoff \<and> dir_port (rs ! i) = 0")
      case old: True
      from True have len: "i \<le> length (smartlist_del rs i)" by (simp add: smartlist_del_def)
      have "mset (remove_old_loop cutoff i rs) = mset (remove_old_loop cutoff i (smartlist_del rs i))"
        using True old remove_old_loop.simps[of cutoff i rs] by auto
      also have "\<dots> = mset (take i (smartlist_del rs i))
                      + mset (filter ?keep (drop i (smartlist_del rs i)))"
        using "1.IH"(1)[OF True old len] .
      also have "\<dots> = mset (take i rs) + mset (filter ?keep (drop (Suc i) rs))"
        using True by (simp add: take_smartlist_del mset_drop_smartlist_del)
      also have "\<dots> = mset (take i rs) + mset (filter ?keep (drop i rs))"
        using old by (simp add: split)
      finally show ?thesis .
    next
      case new: False
      from True have len: "Suc i \<le> length rs" by simp
      have "mset (remove_old_loop cutoff i rs) = mset (remove_old_loop cutoff (Suc i) rs)"
        using True new remove_old_loop.simps[of cutoff i rs] by auto
      also have "\<dots> = mset (take (Suc i) rs) + mset (filter ?keep (drop (Suc i) rs))"
        using "1.IH"(2)[OF True new len] .
      also have "\<dots> = mset (take i rs) + mset (filter ?keep (drop i rs))"
        using True new by (simp add: split take_Suc_conv_app_nth)
      finally show ?thesis .
    qed
  qed
qed

text \<open>
  C6. \<^verbatim>\<open>routerlist_remove_old_routers\<close> removes exactly the routers that were published
  before \<open>now - ROUTER_MAX_AGE\<close> and have directory port 0: the routers afterwards are,
  as a multiset (the loop changes their order), the others. A router with a directory
  port is still in the list afterwards, however old it is.
\<close>

theorem remove_old_routers_removes_old_non_dirservers:
  "\<exists>rs'. routerlist_remove_old_routers now ROUTER_MAX_AGE (Some rl) = Some (rl\<lparr>routers := rs'\<rparr>)
     \<and> mset rs' = mset (filter (\<lambda>r. \<not> (published_on r < now - ROUTER_MAX_AGE \<and> dir_port r = 0))
                           (routers rl))
     \<and> (\<forall>r\<in>set (routers rl). dir_port r > 0 \<longrightarrow> r \<in> set rs')"
proof -
  let ?rs' = "remove_old_loop (now - ROUTER_MAX_AGE) 0 (routers rl)"
  have eq: "mset ?rs' = mset (filter (\<lambda>r. \<not> (published_on r < now - ROUTER_MAX_AGE \<and> dir_port r = 0))
                           (routers rl))"
    using remove_old_loop_mset[of 0 "routers rl" "now - ROUTER_MAX_AGE"] by simp
  have mem: "\<forall>r\<in>set (routers rl). dir_port r > 0 \<longrightarrow> r \<in> set ?rs'"
  proof (intro ballI impI)
    fix r assume "r \<in> set (routers rl)" "dir_port r > 0"
    then have "r \<in> set (filter (\<lambda>r. \<not> (published_on r < now - ROUTER_MAX_AGE \<and> dir_port r = 0))
                           (routers rl))" by auto
    then have "r \<in># mset ?rs'" by (simp only: eq set_mset_mset)
    then show "r \<in> set ?rs'" by simp
  qed
  have "routerlist_remove_old_routers now ROUTER_MAX_AGE (Some rl) = Some (rl\<lparr>routers := ?rs'\<rparr>)"
    by (simp add: routerlist_remove_old_routers_def Let_def)
  with eq mem show ?thesis by blast
qed

theorem remove_old_routers_removes_old_non_dirservers_witness:
  "example_dirserver\<lparr>published_on := 20\<rparr> \<in> set
     [example_dirserver\<lparr>dir_port := 0, published_on := 10\<rparr>,
      example_dirserver\<lparr>published_on := 20\<rparr>,
      example_dirserver\<lparr>dir_port := 0, published_on := 30\<rparr>,
      example_dirserver\<lparr>dir_port := 0, published_on := 900\<rparr>]
   \<and> dir_port (example_dirserver\<lparr>published_on := 20\<rparr>) > 0
   \<and> published_on (example_dirserver\<lparr>published_on := 20\<rparr>) < 1000 - 300
   \<and> routerlist_remove_old_routers 1000 300
       (Some (example_routerlist
          [example_dirserver\<lparr>dir_port := 0, published_on := 10\<rparr>,
           example_dirserver\<lparr>published_on := 20\<rparr>,
           example_dirserver\<lparr>dir_port := 0, published_on := 30\<rparr>,
           example_dirserver\<lparr>dir_port := 0, published_on := 900\<rparr>]))
     = Some (example_routerlist
          [example_dirserver\<lparr>dir_port := 0, published_on := 900\<rparr>,
           example_dirserver\<lparr>published_on := 20\<rparr>])"
proof -
  let ?rs = "[example_dirserver\<lparr>dir_port := 0, published_on := 10\<rparr>,
      example_dirserver\<lparr>published_on := 20\<rparr>,
      example_dirserver\<lparr>dir_port := 0, published_on := 30\<rparr>,
      example_dirserver\<lparr>dir_port := 0, published_on := 900\<rparr>]"
  have a: "example_dirserver\<lparr>published_on := 20\<rparr> \<in> set ?rs" by simp
  have b: "dir_port (example_dirserver\<lparr>published_on := 20\<rparr>) > 0"
    by (simp add: example_dirserver_def)
  have c: "published_on (example_dirserver\<lparr>published_on := 20\<rparr>) < 1000 - 300" by simp
  have ev: "routerlist_remove_old_routers 1000 300 (Some (example_routerlist ?rs))
     = Some (example_routerlist
          [example_dirserver\<lparr>dir_port := 0, published_on := 900\<rparr>,
           example_dirserver\<lparr>published_on := 20\<rparr>])"
    by code_simp
  from remove_old_routers_removes_old_non_dirservers [of 1000 300 "example_routerlist ?rs"]
  obtain rs' where
    "routerlist_remove_old_routers 1000 300 (Some (example_routerlist ?rs))
       = Some (example_routerlist ?rs\<lparr>routers := rs'\<rparr>)"
    and "\<forall>r\<in>set (routers (example_routerlist ?rs)). dir_port r > 0 \<longrightarrow> r \<in> set rs'"
    by blast
  with a b c ev show ?thesis by blast
qed

subsection \<open>Choosing a directory server\<close>

lemma running_dirservers_loop_none:
  "\<not> (\<exists>r\<in>set rs. is_trusted_dir r \<and> is_running r) \<Longrightarrow> running_dirservers_loop i rs = Inr []"
  by (induction rs arbitrary: i) auto

lemma trusted_dirs_have_dir_port_Cons:
  "trusted_dirs_have_dir_port (r # rs) =
     ((is_trusted_dir r \<longrightarrow> dir_port r \<noteq> 0) \<and> trusted_dirs_have_dir_port rs)"
  by (auto simp: trusted_dirs_have_dir_port_def)

text \<open>
  The second loop on a list that satisfies the invariant: no assertion fails, every
  trusted directory server is marked as running, and the routers collected are the
  trusted directory servers.
\<close>

lemma mark_dirservers_loop_ok:
  "trusted_dirs_have_dir_port rs \<Longrightarrow>
   \<exists>sl. mark_dirservers_loop i rs =
          Inr (sl, map (\<lambda>r. if is_trusted_dir r then r\<lparr>is_running := True\<rparr> else r) rs)
        \<and> (\<forall>k\<in>set sl. i \<le> k \<and> k < i + length rs \<and> is_trusted_dir (rs ! (k - i)))
        \<and> (sl = [] \<longleftrightarrow> \<not> (\<exists>r\<in>set rs. is_trusted_dir r))"
proof (induction rs arbitrary: i)
  case Nil
  then show ?case by simp
next
  case (Cons r rest)
  from Cons.prems have inv: "trusted_dirs_have_dir_port rest"
    and port: "is_trusted_dir r \<Longrightarrow> dir_port r \<noteq> 0"
    by (simp_all add: trusted_dirs_have_dir_port_Cons)
  from Cons.IH[OF inv, of "Suc i"] obtain sl where
    loop: "mark_dirservers_loop (Suc i) rest =
          Inr (sl, map (\<lambda>r. if is_trusted_dir r then r\<lparr>is_running := True\<rparr> else r) rest)"
    and range: "\<forall>k\<in>set sl. Suc i \<le> k \<and> k < Suc i + length rest
                  \<and> is_trusted_dir (rest ! (k - Suc i))"
    and empty: "sl = [] \<longleftrightarrow> \<not> (\<exists>r\<in>set rest. is_trusted_dir r)"
    by blast
  have shift: "\<forall>k\<in>set sl. i \<le> k \<and> k < i + length (r # rest)
                 \<and> is_trusted_dir ((r # rest) ! (k - i))"
  proof
    fix k assume "k \<in> set sl"
    with range have k: "Suc i \<le> k" "k < Suc i + length rest" "is_trusted_dir (rest ! (k - Suc i))"
      by auto
    from k(1) have "k - i = Suc (k - Suc i)" by simp
    with k show "i \<le> k \<and> k < i + length (r # rest) \<and> is_trusted_dir ((r # rest) ! (k - i))"
      by simp
  qed
  show ?case
  proof (cases "is_trusted_dir r")
    case True
    with port have "dir_port r > 0" by (simp add: word_greater_zero_iff)
    with True loop shift show ?thesis by auto
  next
    case False
    with loop shift empty show ?thesis by auto
  qed
qed

lemma smartlist_choose_in: "sl \<noteq> [] \<Longrightarrow> \<exists>x\<in>set sl. smartlist_choose rnd sl = Some x"
  by (simp add: smartlist_choose_def)

text \<open>
  On a router list whose trusted directory servers all have a directory port, with at
  least one trusted directory server and none that is running, one call of
  \<^verbatim>\<open>router_pick_directory_server_impl\<close> marks every trusted directory server as running,
  changes nothing else, and returns one of the trusted directory servers.
\<close>

lemma fallback_returns_trusted_dirserver:
  assumes inv: "trusted_dirs_have_dir_port (routers rl)"
    and some: "\<exists>r\<in>set (routers rl). is_trusted_dir r"
    and none: "\<not> (\<exists>r\<in>set (routers rl). is_trusted_dir r \<and> is_running r)"
  shows "\<exists>i<length (routers rl). is_trusted_dir (routers rl ! i) \<and>
     router_pick_directory_server_impl rnd1 rnd2 (Some rl) =
       Inr (Some i, Some (rl\<lparr>routers :=
         map (\<lambda>r. if is_trusted_dir r then r\<lparr>is_running := True\<rparr> else r) (routers rl)\<rparr>))"
proof -
  from mark_dirservers_loop_ok[OF inv, of 0] obtain sl where
    loop: "mark_dirservers_loop 0 (routers rl) =
          Inr (sl, map (\<lambda>r. if is_trusted_dir r then r\<lparr>is_running := True\<rparr> else r) (routers rl))"
    and range: "\<forall>k\<in>set sl. 0 \<le> k \<and> k < 0 + length (routers rl)
                  \<and> is_trusted_dir (routers rl ! (k - 0))"
    and empty: "sl = [] \<longleftrightarrow> \<not> (\<exists>r\<in>set (routers rl). is_trusted_dir r)"
    by blast
  from empty some have "sl \<noteq> []" by simp
  then obtain x where x: "x \<in> set sl" "smartlist_choose rnd2 sl = Some x"
    using smartlist_choose_in by blast
  from range x(1) have "x < length (routers rl)" "is_trusted_dir (routers rl ! x)" by auto
  moreover have "router_pick_directory_server_impl rnd1 rnd2 (Some rl) =
       Inr (Some x, Some (rl\<lparr>routers :=
         map (\<lambda>r. if is_trusted_dir r then r\<lparr>is_running := True\<rparr> else r) (routers rl)\<rparr>))"
    using running_dirservers_loop_none[OF none, of 0] loop x(2)
    by (simp add: router_pick_directory_server_impl_def smartlist_choose_def)
  ultimately show ?thesis by blast
qed

lemma fallback_returns_trusted_dirserver_example:
  "router_pick_directory_server_impl 3 5
     (Some (example_routerlist
        [example_dirserver\<lparr>is_running := False\<rparr>,
         example_dirserver\<lparr>nickname := ''client'', dir_port := 0, is_trusted_dir := False,
                            is_running := False\<rparr>]))
   = Inr (Some 0,
       Some (example_routerlist
         [example_dirserver,
          example_dirserver\<lparr>nickname := ''client'', dir_port := 0, is_trusted_dir := False,
                             is_running := False\<rparr>]))"
proof -
  let ?rs = "[example_dirserver\<lparr>is_running := False\<rparr>,
         example_dirserver\<lparr>nickname := ''client'', dir_port := 0, is_trusted_dir := False,
                            is_running := False\<rparr>]"
  have h1: "trusted_dirs_have_dir_port (routers (example_routerlist ?rs))"
    by (simp add: trusted_dirs_have_dir_port_def example_routerlist_def example_dirserver_def)
  have h2: "\<exists>r\<in>set (routers (example_routerlist ?rs)). is_trusted_dir r"
    by (simp add: example_routerlist_def example_dirserver_def)
  have h3: "\<not> (\<exists>r\<in>set (routers (example_routerlist ?rs)). is_trusted_dir r \<and> is_running r)"
    by (simp add: example_routerlist_def example_dirserver_def)
  from fallback_returns_trusted_dirserver [OF h1 h2 h3, of 3 5]
  obtain i where i: "i < length (routers (example_routerlist ?rs))"
      "is_trusted_dir (routers (example_routerlist ?rs) ! i)"
    and r: "router_pick_directory_server_impl 3 5 (Some (example_routerlist ?rs)) =
       Inr (Some i, Some (example_routerlist ?rs\<lparr>routers :=
         map (\<lambda>r. if is_trusted_dir r then r\<lparr>is_running := True\<rparr> else r)
           (routers (example_routerlist ?rs))\<rparr>))"
    by blast
  from i have "i = 0"
    by (cases i) (simp_all add: example_routerlist_def example_dirserver_def)
  with r show ?thesis
    by (simp add: example_routerlist_def example_dirserver_def)
qed

text \<open>
  C8. The fallback does not return a router on every list that has trusted directory
  servers of which none is running. The list below is what \<^verbatim>\<open>router_add_to_routerlist\<close>
  makes of a trusted directory server that is not running and a newer descriptor of it
  without directory port (both satisfy the invariant): the one router is trusted and not
  running, and the assertion of the second loop of \<^verbatim>\<open>router_pick_directory_server_impl\<close>
  fails on it.
\<close>

theorem fallback_asserts_after_add_router:
  "trusted_dirs_have_dir_port [example_dirserver\<lparr>is_running := False\<rparr>]
   \<and> trusted_dirs_have_dir_port
       [example_dirserver\<lparr>dir_port := 0, published_on := 200, is_trusted_dir := False,
                          is_running := False\<rparr>]
   \<and> router_add_to_routerlist [example_dirserver\<lparr>is_running := False\<rparr>]
       (example_dirserver\<lparr>dir_port := 0, published_on := 200, is_trusted_dir := False,
                          is_running := False\<rparr>)
     = (0, [example_dirserver\<lparr>dir_port := 0, published_on := 200, is_running := False\<rparr>])
   \<and> is_trusted_dir
       (example_dirserver\<lparr>dir_port := 0, published_on := 200, is_running := False\<rparr>)
   \<and> \<not> is_running
       (example_dirserver\<lparr>dir_port := 0, published_on := 200, is_running := False\<rparr>)
   \<and> router_pick_directory_server_impl rnd1 rnd2
       (Some (example_routerlist
          [example_dirserver\<lparr>dir_port := 0, published_on := 200, is_running := False\<rparr>]))
     = Inl AssertionFailed"
  by (simp add: trusted_dirs_have_dir_port_def example_dirserver_def tolower_def
        crypto_pk_cmp_keys_def router_pick_directory_server_impl_def example_routerlist_def
        smartlist_choose_def)

subsection \<open>Running routers\<close>

text \<open>
  C9. A list of running routers that was not published strictly after the router list, or
  not strictly after the last list of running routers applied, changes nothing:
  \<^verbatim>\<open>routerlist_update_from_runningrouters\<close> leaves every router (its \<open>is_running\<close> too)
  and both time stamps of the router list as they were.
\<close>

theorem stale_running_routers_change_nothing:
  assumes "\<not> rr_published_on rr > list_published_on l
           \<or> \<not> rr_published_on rr > running_routers_updated_on l"
  shows "routerlist_update_from_runningrouters (Some l) rr = Some l"
  using assms by (auto simp: routerlist_update_from_runningrouters_def)

theorem stale_running_routers_change_nothing_witness:
  "routerlist_update_from_runningrouters
     (Some (example_routerlist [example_dirserver\<lparr>is_running := False\<rparr>]))
     \<lparr>rr_published_on = 55, running_routers = [''moria'']\<rparr>
   = Some (example_routerlist [example_dirserver\<lparr>is_running := False\<rparr>])
   \<and> routerlist_update_from_runningrouters
     (Some (example_routerlist [example_dirserver\<lparr>is_running := False\<rparr>]))
     \<lparr>rr_published_on = 70, running_routers = [''moria'']\<rparr>
   = Some (example_routerlist [example_dirserver]\<lparr>running_routers_updated_on := 70\<rparr>)"
proof -
  let ?l = "example_routerlist [example_dirserver\<lparr>is_running := False\<rparr>]"
  let ?rr = "\<lparr>rr_published_on = 55, running_routers = [''moria'']\<rparr>"
  have h: "\<not> rr_published_on ?rr > list_published_on ?l
           \<or> \<not> rr_published_on ?rr > running_routers_updated_on ?l"
    by (simp add: example_routerlist_def)
  have fresh: "routerlist_update_from_runningrouters (Some ?l)
     \<lparr>rr_published_on = 70, running_routers = [''moria'']\<rparr>
   = Some (example_routerlist [example_dirserver]\<lparr>running_routers_updated_on := 70\<rparr>)"
    by (simp add: routerlist_update_from_runningrouters_def example_routerlist_def
          example_dirserver_def router_nickname_matches_def first_char_is_def tolower_def)
  from stale_running_routers_change_nothing [OF h] fresh show ?thesis by simp
qed

subsection \<open>Looking a router up\<close>

text \<open>
  The shared loop returns position \<open>k\<close> exactly when the router there is the first one
  that satisfies \<open>P\<close>.
\<close>

lemma first_router_Some_iff:
  "first_router P i rs = Some k \<longleftrightarrow>
     i \<le> k \<and> k - i < length rs \<and> P (rs ! (k - i)) \<and> (\<forall>j<k - i. \<not> P (rs ! j))"
proof (induction rs arbitrary: i)
  case Nil
  show ?case by simp
next
  case (Cons r rest)
  show ?case
  proof (cases "P r")
    case True
    then show ?thesis by (cases "k - i") auto
  next
    case False
    have "first_router P (Suc i) rest = Some k \<longleftrightarrow>
      Suc i \<le> k \<and> k - Suc i < length rest \<and> P (rest ! (k - Suc i))
      \<and> (\<forall>j<k - Suc i. \<not> P (rest ! j))"
      by (rule Cons.IH)
    also have "\<dots> \<longleftrightarrow> i \<le> k \<and> k - i < length (r # rest) \<and> P ((r # rest) ! (k - i))
        \<and> (\<forall>j<k - i. \<not> P ((r # rest) ! j))"
    proof (cases "k - i")
      case 0
      with False show ?thesis by auto
    next
      case (Suc m)
      then have "k - Suc i = m" "Suc i \<le> k" "i \<le> k" by simp_all
      with Suc False show ?thesis by (auto simp: less_Suc_eq_0_disj)
    qed
    finally show ?thesis using False by simp
  qed
qed

lemma first_router_bound:
  "first_router P i rs = Some k \<Longrightarrow> i \<le> k \<and> k < i + length rs"
  by (auto simp: first_router_Some_iff)

lemma router_get_by_nickname_bound:
  assumes "router_get_by_nickname (Some rl) name = Some k"
  shows "k < length (routers rl)"
proof -
  from assms obtain P where "first_router P 0 (routers rl) = Some k"
    by (auto simp: router_get_by_nickname_def router_get_by_hexdigest_def router_get_by_digest_def
          Let_def split: if_splits option.splits)
  from first_router_bound[OF this] show ?thesis by simp
qed

text \<open>
  For a name without the marker \<^verbatim>\<open>$\<close>, \<^verbatim>\<open>router_get_by_nickname\<close> returns the first
  router of the list that matches the name by nickname (up to case) or, when the name is
  40 hexadecimal digits, by identity digest: the two tests are made on each router in
  turn.
\<close>

lemma get_by_nickname_first_match:
  fixes tok :: string and rl :: routerlist_t
  defines "by_nickname \<equiv> \<lambda>r. strcasecmp (nickname r) tok = 0"
    and "by_digest \<equiv> \<lambda>r. (if length tok = HEX_DIGEST_LEN
            then (case base16_decode DIGEST_LEN tok HEX_DIGEST_LEN of
                    None \<Rightarrow> False
                  | Some digest \<Rightarrow> memcmp digest (identity_digest r) DIGEST_LEN = 0)
            else False)"
  assumes marker: "\<not> first_char_is (CHR ''$'') tok"
  shows "(router_get_by_nickname (Some rl) tok = Some k \<longleftrightarrow>
           k < length (routers rl)
           \<and> (by_nickname (routers rl ! k) \<or> by_digest (routers rl ! k))
           \<and> (\<forall>j<k. \<not> by_nickname (routers rl ! j) \<and> \<not> by_digest (routers rl ! j)))
       \<and> (k < length (routers rl) \<and> by_nickname (routers rl ! k)
            \<and> (\<forall>j<k. \<not> by_nickname (routers rl ! j) \<and> \<not> by_digest (routers rl ! j))
           \<longrightarrow> router_get_by_nickname (Some rl) tok = Some k)"
proof -
  have eq: "router_get_by_nickname (Some rl) tok =
     first_router (\<lambda>r. by_nickname r \<or> by_digest r) 0 (routers rl)"
    using marker unfolding router_get_by_nickname_def by_nickname_def by_digest_def
    by (auto simp: Let_def split: option.splits
          intro!: arg_cong[where f="\<lambda>P. first_router P 0 (routers rl)"])
  have "router_get_by_nickname (Some rl) tok = Some k \<longleftrightarrow>
           k < length (routers rl)
           \<and> (by_nickname (routers rl ! k) \<or> by_digest (routers rl ! k))
           \<and> (\<forall>j<k. \<not> by_nickname (routers rl ! j) \<and> \<not> by_digest (routers rl ! j))"
    unfolding eq first_router_Some_iff by auto
  then show ?thesis by blast
qed

lemma get_by_nickname_first_match_example:
  "router_get_by_nickname (Some example_three_routers) ''BOB'' = Some 1"
proof -
  have marker: "\<not> first_char_is (CHR ''$'') ''BOB''" by (simp add: first_char_is_def)
  have k: "(1 :: nat) < length (routers example_three_routers)"
    by (simp add: example_three_routers_def example_routerlist_def)
  have nick: "strcasecmp (nickname (routers example_three_routers ! 1)) ''BOB'' = 0"
    by (simp add: example_three_routers_def example_routerlist_def tolower_def)
  have before: "\<forall>j<(1 :: nat).
      \<not> strcasecmp (nickname (routers example_three_routers ! j)) ''BOB'' = 0
      \<and> \<not> (if length ''BOB'' = HEX_DIGEST_LEN
            then (case base16_decode DIGEST_LEN ''BOB'' HEX_DIGEST_LEN of
                    None \<Rightarrow> False
                  | Some digest \<Rightarrow>
                      memcmp digest (identity_digest (routers example_three_routers ! j))
                        DIGEST_LEN = 0)
            else False)"
    by (simp add: example_three_routers_def example_routerlist_def example_dirserver_def
          tolower_def HEX_DIGEST_LEN_def)
  from get_by_nickname_first_match [OF marker, of example_three_routers 1] k nick before
  show ?thesis by blast
qed








text \<open>
  The bound on the nicknames is needed. On a list whose first router has the identity
  digest that a name of 40 hexadecimal digits decodes to and whose second router has that
  name as its nickname, the second router's nickname matches and the first router is the
  result.
\<close>

lemma digest_match_before_long_nickname:
  "\<not> first_char_is (CHR ''$'') example_hex_name
   \<and> strcasecmp (nickname ([example_dirserver, example_hex_named_router] ! 1)) example_hex_name = 0
   \<and> strcasecmp (nickname ([example_dirserver, example_hex_named_router] ! 0)) example_hex_name \<noteq> 0
   \<and> router_get_by_nickname
       (Some (example_routerlist [example_dirserver, example_hex_named_router])) example_hex_name
     = Some 0"
  by code_simp

subsection \<open>Choosing a random node\<close>

lemma nickname_list_loop_running:
  "nickname_list_loop m routerlist sl start = Inr sl' \<Longrightarrow>
   \<forall>k\<in>set sl'. k \<in> set sl \<or> running_router routerlist k"
proof (induction m routerlist sl start arbitrary: sl' rule: nickname_list_loop.induct)
  case (1 m routerlist sl start)
  show ?case
  proof (cases "start = []")
    case True
    with "1.prems" have "sl' = sl"
      using nickname_list_loop.simps[of m routerlist sl "[]"] by simp
    then show ?thesis by simp
  next
    case False
    let ?nick = "takeWhile (\<lambda>c. \<not> is_separator c) start"
    let ?end = "dropWhile (\<lambda>c. \<not> is_separator c) start"
    let ?sl1 = "(case routerlist of
                        None \<Rightarrow> sl
                      | Some rl \<Rightarrow>
                          (case router_get_by_nickname routerlist ?nick of
                             None \<Rightarrow> sl
                           | Some router \<Rightarrow>
                               if is_running (routers rl ! router) then sl @ [router] else sl))"
    from False "1.prems" have fits: "\<not> length ?nick > m"
      by (auto simp: nickname_list_loop.simps[of m routerlist sl start] Let_def split: if_splits)
    with False "1.prems"
    have rec: "nickname_list_loop m routerlist ?sl1 (dropWhile is_separator ?end) = Inr sl'"
      by (simp add: nickname_list_loop.simps[of m routerlist sl start] Let_def)
    from "1.IH"[OF False refl refl fits refl rec]
    have ih: "\<forall>k\<in>set sl'. k \<in> set ?sl1 \<or> running_router routerlist k" .
    have "\<forall>k\<in>set ?sl1. k \<in> set sl \<or> running_router routerlist k"
      by (auto simp: running_router_def split: option.splits if_splits
            dest: router_get_by_nickname_bound)
    with ih show ?thesis by blast
  qed
qed

lemma add_nickname_list_running:
  "add_nickname_list_to_smartlist m routerlist [] names = Inr sl \<Longrightarrow>
   \<forall>k\<in>set sl. running_router routerlist k"
  using nickname_list_loop_running[of m routerlist "[]" "dropWhile is_separator names" sl]
  by (simp add: add_nickname_list_to_smartlist_def)

lemma running_routers_running:
  "\<forall>k\<in>set (router_add_running_routers_to_smartlist p conn routerlist []).
     running_router routerlist k"
  by (auto simp: router_add_running_routers_to_smartlist_def running_router_def
        split: option.splits)

lemma smartlist_choose_mem: "smartlist_choose rnd sl = Some x \<Longrightarrow> x \<in> set sl"
  by (auto simp: smartlist_choose_def split: if_splits)

lemma set_smartlist_subtract: "set (smartlist_subtract sl1 sl2) = set sl1 - set sl2"
  by (auto simp: smartlist_subtract_def)

text \<open>
  When both name lists are read without overrunning the buffer of
  \<^verbatim>\<open>add_nickname_list_to_smartlist\<close>: let \<open>excludednodes\<close> be the routers that \<open>excluded\<close>
  resolves to and \<open>excludedset\<close> the routers of \<open>excludedsmartlist\<close>. A router returned by
  \<^verbatim>\<open>router_choose_random_node\<close> is in neither of them (and is a running router of the
  list), whatever the random draws; and when the two together hold every running router
  of the list, the result is NULL, whatever \<open>preferred\<close> names.
\<close>

lemma chosen_node_not_excluded_if_names_fit:
  fixes excludedsmartlist :: "nat list option"
  defines "excludedset \<equiv> set (case excludedsmartlist of None \<Rightarrow> [] | Some ex \<Rightarrow> ex)"
  assumes ex: "add_nickname_list_to_smartlist m routerlist [] excluded = Inr excludednodes"
    and pr: "add_nickname_list_to_smartlist m routerlist [] preferred = Inr sl"
  shows "(\<forall>choice.
            router_choose_random_node m p conn rnd1 rnd2 routerlist preferred excluded
              excludedsmartlist = Inr (Some choice)
            \<longrightarrow> choice \<notin> set excludednodes \<and> choice \<notin> excludedset
                \<and> running_router routerlist choice)
       \<and> ((\<forall>k. running_router routerlist k \<longrightarrow> k \<in> set excludednodes \<or> k \<in> excludedset)
            \<longrightarrow> router_choose_random_node m p conn rnd1 rnd2 routerlist preferred excluded
                  excludedsmartlist = Inr None)"
proof -
  let ?sub = "\<lambda>xs. (case excludedsmartlist of
                      None \<Rightarrow> smartlist_subtract xs excludednodes
                    | Some ex \<Rightarrow> smartlist_subtract (smartlist_subtract xs excludednodes) ex)"
  let ?all = "router_add_running_routers_to_smartlist p conn routerlist []"
  have sub: "set (?sub xs) = set xs - set excludednodes - excludedset" for xs
    by (simp add: excludedset_def set_smartlist_subtract split: option.splits)
  have res: "router_choose_random_node m p conn rnd1 rnd2 routerlist preferred excluded
              excludedsmartlist =
     (case smartlist_choose rnd1 (?sub sl) of
        Some choice \<Rightarrow> Inr (Some choice)
      | None \<Rightarrow> Inr (smartlist_choose rnd2 (?sub ?all)))"
    by (simp add: router_choose_random_node_def ex pr Let_def split: option.splits)
  have sl_running: "\<forall>k\<in>set sl. running_router routerlist k"
    by (rule add_nickname_list_running[OF pr])
  have all_running: "\<forall>k\<in>set ?all. running_router routerlist k"
    by (rule running_routers_running)
  have part1: "choice \<notin> set excludednodes \<and> choice \<notin> excludedset
      \<and> running_router routerlist choice"
    if "router_choose_random_node m p conn rnd1 rnd2 routerlist preferred excluded
              excludedsmartlist = Inr (Some choice)" for choice
  proof -
    from that res have "choice \<in> set (?sub sl) \<or> choice \<in> set (?sub ?all)"
      by (auto split: option.splits dest: smartlist_choose_mem)
    then have "choice \<in> (set sl \<union> set ?all) - set excludednodes - excludedset"
      unfolding sub by blast
    with sl_running all_running show ?thesis by blast
  qed
  have part2: "router_choose_random_node m p conn rnd1 rnd2 routerlist preferred excluded
                  excludedsmartlist = Inr None"
    if cover: "\<forall>k. running_router routerlist k \<longrightarrow> k \<in> set excludednodes \<or> k \<in> excludedset"
  proof -
    from cover sl_running have "set (?sub sl) = {}" unfolding sub by blast
    moreover from cover all_running have "set (?sub ?all) = {}" unfolding sub by blast
    ultimately have "?sub sl = []" "?sub ?all = []" by simp_all
    then show ?thesis by (simp add: res smartlist_choose_def)
  qed
  from part1 part2 show ?thesis by blast
qed

lemma chosen_node_not_excluded_if_names_fit_example:
  "add_nickname_list_to_smartlist 19 (Some example_three_routers) [] ''Moria'' = Inr [0]
   \<and> add_nickname_list_to_smartlist 19 (Some example_three_routers) [] ''bob, carol'' = Inr [1]
   \<and> router_choose_random_node 19 0 (\<lambda>d. False) 4 9 (Some example_three_routers)
       ''bob, carol'' ''Moria'' (Some [1]) = Inr None
   \<and> router_choose_random_node 19 0 (\<lambda>d. False) 4 9 (Some example_three_routers)
       ''bob, carol'' ''Moria'' None = Inr (Some 1)"
proof -
  have ex: "add_nickname_list_to_smartlist 19 (Some example_three_routers) [] ''Moria''
      = Inr [0]"
    by code_simp
  have pr: "add_nickname_list_to_smartlist 19 (Some example_three_routers) [] ''bob, carol''
      = Inr [1]"
    by code_simp
  have cover: "\<forall>k. running_router (Some example_three_routers) k
      \<longrightarrow> k \<in> set [0] \<or> k \<in> set (case Some [1] of None \<Rightarrow> [] | Some ex \<Rightarrow> ex)"
  proof (intro allI impI)
    fix k assume "running_router (Some example_three_routers) k"
    then have "k < 3" and run: "is_running (routers example_three_routers ! k)"
      by (simp_all add: running_router_def example_three_routers_def example_routerlist_def)
    then have "k = 0 \<or> k = 1 \<or> k = 2" by arith
    with run show "k \<in> set [0] \<or> k \<in> set (case Some [1] of None \<Rightarrow> [] | Some ex \<Rightarrow> ex)"
      by (auto simp: example_three_routers_def example_routerlist_def)
  qed
  have other: "router_choose_random_node 19 0 (\<lambda>d. False) 4 9 (Some example_three_routers)
       ''bob, carol'' ''Moria'' None = Inr (Some 1)"
    by code_simp
  from chosen_node_not_excluded_if_names_fit [OF ex pr, of 0 "\<lambda>d. False" 4 9 "Some [1]"] cover
  have "router_choose_random_node 19 0 (\<lambda>d. False) 4 9 (Some example_three_routers)
       ''bob, carol'' ''Moria'' (Some [1]) = Inr None"
    by blast
  with ex pr other show ?thesis by blast
qed

text \<open>
  C7. A name of a list that is longer than \<^verbatim>\<open>MAX_NICKNAME_LEN\<close> (19 in \<^verbatim>\<open>or.h\<close>) overruns
  the buffer \<^verbatim>\<open>nick\<close> of \<^verbatim>\<open>add_nickname_list_to_smartlist\<close>, and every name that is a
  hexadecimal digest is that long (40 digits, 41 characters with the marker), although
  \<^verbatim>\<open>router_get_by_nickname\<close> resolves such a name. With \<^verbatim>\<open>moria\<close> and \<^verbatim>\<open>bob\<close>, the two
  running routers of the list, both excluded and \<^verbatim>\<open>moria\<close> preferred by its digest,
  \<^verbatim>\<open>router_choose_random_node\<close> does not return NULL but overruns the buffer; so it does
  with \<^verbatim>\<open>moria\<close> excluded by its digest.
\<close>

theorem hexdigest_name_overruns_nick_buffer:
  "add_nickname_list_to_smartlist 19 (Some example_three_routers) [] ''Moria, bob'' = Inr [0, 1]
   \<and> length (routers example_three_routers) = 3
   \<and> running_router (Some example_three_routers) 0
   \<and> running_router (Some example_three_routers) 1
   \<and> \<not> running_router (Some example_three_routers) 2
   \<and> router_get_by_nickname (Some example_three_routers) (CHR ''$'' # example_hex_name) = Some 0
   \<and> router_choose_random_node 19 0 (\<lambda>d. False) 4 9 (Some example_three_routers)
       (CHR ''$'' # example_hex_name) ''Moria, bob'' None = Inl BufferOverrun
   \<and> router_choose_random_node 19 0 (\<lambda>d. False) 4 9 (Some example_three_routers)
       ''carol'' (CHR ''$'' # example_hex_name) None = Inl BufferOverrun"
  by code_simp

end
